theory Spec2Isabelle
  imports Main "HOL-Library.Word"
begin

section \<open>The pull-based stream pipeline of cxxstreams\<close>

text \<open>
  The class template \<^verbatim>\<open>Stream<T, S, IMPL>\<close> of \<^verbatim>\<open>stream.hpp\<close> implements every
  chaining and terminal operation on top of one stateful method of the concrete stage,
  \<^verbatim>\<open>IMPL::next() -> std::optional<T>\<close>. A stage is embedded as a state of type \<open>'s\<close>
  together with its step function \<open>nxt :: 's \<Rightarrow> 'a option \<times> 's\<close>: a call of
  \<^verbatim>\<open>self.next()\<close> in state \<open>s\<close> returns \<open>fst (nxt s)\<close> and leaves the stage in state
  \<open>snd (nxt s)\<close>. A terminal operation takes the step function and the stage and returns
  its result together with the stage as it leaves it.

  The \<^verbatim>\<open>while (element)\<close> loops of the terminal operations run for as long as the
  stage yields elements, so each of them is a \<^theory_text>\<open>partial_function\<close> in the option
  monad: \<open>None\<close> is a loop that never returns.
\<close>

subsection \<open>What the element type and the target container provide\<close>

text \<open>
  An instantiation of the template is rejected by the compiler when a
  \<^verbatim>\<open>static_assert\<close> fails, when a \<^verbatim>\<open>requires\<close> clause is not satisfied, when the
  instantiated body applies an operator the element type does not have, or when the
  returned object is not of the declared return type. These are the \<open>Inl\<close> results.
\<close>

datatype build_error =
    Static_Assert_No_Add
  | Static_Assert_No_Lth_Or_Gth
  | No_Match_For_Operator_Add
  | No_Match_For_Operator_Lth
  | No_Match_For_Operator_Gth
  | Constraint_Not_Satisfied
  | Stage_Template_Rejected
  | No_Viable_Conversion

text \<open>
  The element type \<^verbatim>\<open>T\<close>, as far as the terminal operations look at it: the operators
  \<^verbatim>\<open>+\<close>, \<^verbatim>\<open><\<close> and \<^verbatim>\<open>>\<close> it provides (\<open>None\<close> for an operator it does not have).
\<close>

record 'a value_type =
  op_add :: "('a \<Rightarrow> 'a \<Rightarrow> 'a) option"
  op_lth :: "('a \<Rightarrow> 'a \<Rightarrow> bool) option"
  op_gth :: "('a \<Rightarrow> 'a \<Rightarrow> bool) option"

text \<open>
  Modelled from the spec: the concepts \<^verbatim>\<open>has_add\<close>, \<^verbatim>\<open>has_lth\<close> and \<^verbatim>\<open>has_gth\<close> of
  \<^verbatim>\<open>concepts.hpp\<close>, which is not among the sources. The spec describes them as the
  compile-time queries "presence of \<^verbatim>\<open>+\<close>, presence of \<^verbatim>\<open><\<close> and/or \<^verbatim>\<open>>\<close>".
\<close>

definition has_add :: "'a value_type \<Rightarrow> bool" where
  "has_add T = (op_add T \<noteq> None)"

definition has_lth :: "'a value_type \<Rightarrow> bool" where
  "has_lth T = (op_lth T \<noteq> None)"

definition has_gth :: "'a value_type \<Rightarrow> bool" where
  "has_gth T = (op_gth T \<noteq> None)"

text \<open>
  The container template \<^verbatim>\<open>C\<close> handed to \<^verbatim>\<open>collect\<close>, as far as its
  \<^verbatim>\<open>requires\<close> clause and its \<^verbatim>\<open>if constexpr\<close> look at it. A container value is the
  list of its elements in iteration order.
\<close>

record container_type =
  default_constructible :: bool
  has_add_assign :: bool
  has_push_back :: bool

text \<open>
  Modelled from the spec: the two insertions of the target container, which belong to
  the container (the standard library) and not to the sources. The spec calls them
  "append-operator insertion" and "push-back-style insertion"; both put the element
  after the elements already in the container.
\<close>

definition add_assign :: "'a list \<Rightarrow> 'a \<Rightarrow> 'a list" where
  "add_assign result x = result @ [x]"

definition push_back :: "'a list \<Rightarrow> 'a \<Rightarrow> 'a list" where
  "push_back result x = result @ [x]"

subsection \<open>Chaining: \<^verbatim>\<open>filter\<close>\<close>

text \<open>
  The callable type \<^verbatim>\<open>F\<close> handed to \<^verbatim>\<open>filter\<close>, as far as its \<^verbatim>\<open>requires\<close> clause
  and the spec look at it: whether \<^verbatim>\<open>std::is_convertible_v<F, std::function<void(T&)>>\<close>
  holds, which is the test of line 54, and the callable as a function of the shape
  \<^verbatim>\<open>T -> bool\<close> when it converts to one (\<open>None\<close> when it does not).
\<close>

record 'a callable_type =
  converts_to_function_void_ref :: bool
  as_predicate :: "('a \<Rightarrow> bool) option"

text \<open>
  Modelled from the spec: the state of the Filter stage of \<^verbatim>\<open>filtering_stream.hpp\<close>,
  which is not among the sources: "owned upstream stage, a predicate".
\<close>

record ('s, 'a) FilteringStream =
  filter_upstream :: 's
  filter_predicate :: "'a callable_type"

text \<open>
  \<^verbatim>\<open>Stream::filter\<close> (lines 53-57): the \<^verbatim>\<open>requires\<close> clause, then the construction of
  \<^verbatim>\<open>FilteringStream<IMPL, F>\<close>. Whether that class template accepts \<^verbatim>\<open>F\<close> is decided
  in the header that is not among the sources: it is the parameter \<open>stage_accepts\<close>.
\<close>

definition filter_stream ::
  "('a callable_type \<Rightarrow> bool) \<Rightarrow> 'a callable_type \<Rightarrow> 's \<Rightarrow> build_error + ('s, 'a) FilteringStream" where
  "filter_stream stage_accepts F self =
     (if converts_to_function_void_ref F then
        (if stage_accepts F then Inr \<lparr>filter_upstream = self, filter_predicate = F\<rparr>
         else Inl Stage_Template_Rejected)
      else Inl Constraint_Not_Satisfied)"

subsection \<open>Chaining: \<^verbatim>\<open>limit\<close>\<close>

text \<open>
  \<^verbatim>\<open>size_t\<close> is an unsigned machine integer whose width the platform fixes: a word of
  any length \<open>'w\<close>.
\<close>

text \<open>
  Modelled from the spec: the Limit stage of \<^verbatim>\<open>limiting_stream.hpp\<close>, which is not
  among the sources. Its state is "owned upstream stage, a maximum count, a
  consumed-so-far counter (starts at 0)". Its pull-next: "if counter has reached
  maximum, return empty unconditionally", and then "the stage never pulls upstream
  again"; "Otherwise pull from upstream; if upstream yields empty, propagate empty;
  otherwise increment counter and return the value."
\<close>

record (overloaded) ('s, 'w) LimitingStream =
  upstream :: 's
  max_count :: "'w word"
  consumed :: "'w word"

definition limiting_next ::
  "('s \<Rightarrow> 'a option \<times> 's) \<Rightarrow> ('s, 'w::len) LimitingStream \<Rightarrow> 'a option \<times> ('s, 'w) LimitingStream" where
  "limiting_next up self =
     (if max_count self \<le> consumed self then (None, self)
      else (case up (upstream self) of
              (None, u) \<Rightarrow> (None, self\<lparr>upstream := u\<rparr>)
            | (Some v, u) \<Rightarrow> (Some v, self\<lparr>upstream := u, consumed := consumed self + 1\<rparr>)))"

text \<open>
  \<^verbatim>\<open>Stream::limit\<close> (lines 65-67) moves the stage into a new Limit stage with the given
  maximum.
\<close>

definition limit :: "'s \<Rightarrow> 'w word \<Rightarrow> ('s, 'w::len) LimitingStream" where
  "limit self n = \<lparr>upstream = self, max_count = n, consumed = 0\<rparr>"

subsection \<open>Terminal operations\<close>

text \<open>\<^verbatim>\<open>find_first\<close> (lines 69-71) is one call of \<^verbatim>\<open>next\<close>.\<close>

definition find_first :: "('s \<Rightarrow> 'a option \<times> 's) \<Rightarrow> 's \<Rightarrow> 'a option \<times> 's" where
  "find_first nxt self = nxt self"

text \<open>
  \<^verbatim>\<open>reduce\<close> (lines 73-92). \<open>reduce_while\<close> is the loop of lines 86-89 over its
  variables \<^verbatim>\<open>acc\<close> and \<^verbatim>\<open>next\<close> and the stage.
\<close>

partial_function (option) reduce_while ::
  "('a \<Rightarrow> 'a \<Rightarrow> 'a) \<Rightarrow> ('s \<Rightarrow> 'a option \<times> 's) \<Rightarrow> 'a \<Rightarrow> 'a option \<Rightarrow> 's \<Rightarrow> ('a \<times> 's) option" where
  "reduce_while function nxt acc next_e self =
     (case next_e of
        None \<Rightarrow> Some (acc, self)
      | Some v \<Rightarrow>
          (case nxt self of (next_e', self') \<Rightarrow>
             reduce_while function nxt (function acc v) next_e' self'))"

definition reduce ::
  "('a \<Rightarrow> 'a \<Rightarrow> 'a) \<Rightarrow> ('s \<Rightarrow> 'a option \<times> 's) \<Rightarrow> 's \<Rightarrow> ('a option \<times> 's) option" where
  "reduce function nxt self =
     (case nxt self of
        (None, s1) \<Rightarrow> Some (None, s1)
      | (Some element, s1) \<Rightarrow>
          (case nxt s1 of (next_e, s2) \<Rightarrow>
             (case reduce_while function nxt element next_e s2 of
                None \<Rightarrow> None
              | Some (acc, s3) \<Rightarrow> Some (Some acc, s3))))"

text \<open>\<^verbatim>\<open>sum\<close> (lines 94-100): the \<^verbatim>\<open>static_assert\<close>, then \<^verbatim>\<open>reduce\<close> with \<^verbatim>\<open>a + b\<close>.\<close>

definition sum_stream ::
  "'a value_type \<Rightarrow> ('s \<Rightarrow> 'a option \<times> 's) \<Rightarrow> 's \<Rightarrow> build_error + ('a option \<times> 's) option" where
  "sum_stream T nxt self =
     (if has_add T then
        (case op_add T of
           Some add \<Rightarrow> Inr (reduce (\<lambda>a b. add a b) nxt self)
         | None \<Rightarrow> Inl No_Match_For_Operator_Add)
      else Inl Static_Assert_No_Add)"

text \<open>
  \<^verbatim>\<open>min\<close> (lines 102-133) and \<^verbatim>\<open>max\<close> (lines 135-166). The \<^verbatim>\<open>static_assert\<close> and
  the \<^verbatim>\<open>if constexpr\<close> are decided when the template is instantiated: \<open>min_replace\<close>
  and \<open>max_replace\<close> give the test of the \<^verbatim>\<open>if\<close> statement that the instantiation
  keeps, as a function of \<^verbatim>\<open>value\<close> and \<^verbatim>\<open>result\<close>, or the reason why the
  instantiation is rejected. In \<^verbatim>\<open>min\<close> the branch for \<^verbatim>\<open>has_lth\<close> applies \<^verbatim>\<open><\<close>
  (line 119) and the other branch \<^verbatim>\<open>>\<close> (line 124); in \<^verbatim>\<open>max\<close> the branch for
  \<^verbatim>\<open>has_lth\<close> applies \<^verbatim>\<open>>\<close> (line 152) and the other branch \<^verbatim>\<open><\<close> (line 157).
\<close>

definition min_replace :: "'a value_type \<Rightarrow> build_error + ('a \<Rightarrow> 'a \<Rightarrow> bool)" where
  "min_replace T =
     (if has_lth T \<or> has_gth T then
        (if has_lth T then
           (case op_lth T of
              Some lt \<Rightarrow> Inr (\<lambda>v result. lt v result)
            | None \<Rightarrow> Inl No_Match_For_Operator_Lth)
         else
           (case op_gth T of
              Some gt \<Rightarrow> Inr (\<lambda>v result. \<not> gt v result)
            | None \<Rightarrow> Inl No_Match_For_Operator_Gth))
      else Inl Static_Assert_No_Lth_Or_Gth)"

definition max_replace :: "'a value_type \<Rightarrow> build_error + ('a \<Rightarrow> 'a \<Rightarrow> bool)" where
  "max_replace T =
     (if has_lth T \<or> has_gth T then
        (if has_lth T then
           (case op_gth T of
              Some gt \<Rightarrow> Inr (\<lambda>v result. gt v result)
            | None \<Rightarrow> Inl No_Match_For_Operator_Gth)
         else
           (case op_lth T of
              Some lt \<Rightarrow> Inr (\<lambda>v result. \<not> lt v result)
            | None \<Rightarrow> Inl No_Match_For_Operator_Lth))
      else Inl Static_Assert_No_Lth_Or_Gth)"

text \<open>
  The loops of lines 115-130 and 148-163 are the same statement for statement once the
  test is fixed: over \<^verbatim>\<open>result\<close>, \<^verbatim>\<open>element\<close> and the stage.
\<close>

partial_function (option) extremum_while ::
  "('a \<Rightarrow> 'a \<Rightarrow> bool) \<Rightarrow> ('s \<Rightarrow> 'a option \<times> 's) \<Rightarrow> 'a \<Rightarrow> 'a option \<Rightarrow> 's \<Rightarrow> ('a \<times> 's) option" where
  "extremum_while replace nxt result element self =
     (case element of
        None \<Rightarrow> Some (result, self)
      | Some v \<Rightarrow>
          (case nxt self of (element', self') \<Rightarrow>
             extremum_while replace nxt (if replace v result then v else result) element' self'))"

definition extremum ::
  "('a \<Rightarrow> 'a \<Rightarrow> bool) \<Rightarrow> ('s \<Rightarrow> 'a option \<times> 's) \<Rightarrow> 's \<Rightarrow> ('a option \<times> 's) option" where
  "extremum replace nxt self =
     (case nxt self of
        (None, s1) \<Rightarrow> Some (None, s1)
      | (Some element, s1) \<Rightarrow>
          (case nxt s1 of (element', s2) \<Rightarrow>
             (case extremum_while replace nxt element element' s2 of
                None \<Rightarrow> None
              | Some (result, s3) \<Rightarrow> Some (Some result, s3))))"

definition min_stream ::
  "'a value_type \<Rightarrow> ('s \<Rightarrow> 'a option \<times> 's) \<Rightarrow> 's \<Rightarrow> build_error + ('a option \<times> 's) option" where
  "min_stream T nxt self =
     (case min_replace T of Inl e \<Rightarrow> Inl e | Inr replace \<Rightarrow> Inr (extremum replace nxt self))"

definition max_stream ::
  "'a value_type \<Rightarrow> ('s \<Rightarrow> 'a option \<times> 's) \<Rightarrow> 's \<Rightarrow> build_error + ('a option \<times> 's) option" where
  "max_stream T nxt self =
     (case max_replace T of Inl e \<Rightarrow> Inl e | Inr replace \<Rightarrow> Inr (extremum replace nxt self))"

text \<open>\<^verbatim>\<open>count\<close> (lines 168-179); \<^verbatim>\<open>result++\<close> is addition in \<^verbatim>\<open>size_t\<close>.\<close>

partial_function (option) count_while ::
  "('s \<Rightarrow> 'a option \<times> 's) \<Rightarrow> 'w::len word \<Rightarrow> 'a option \<Rightarrow> 's \<Rightarrow> ('w word \<times> 's) option" where
  "count_while nxt result element self =
     (case element of
        None \<Rightarrow> Some (result, self)
      | Some v \<Rightarrow>
          (case nxt self of (element', self') \<Rightarrow>
             count_while nxt (result + 1) element' self'))"

definition count :: "('s \<Rightarrow> 'a option \<times> 's) \<Rightarrow> 's \<Rightarrow> ('w::len word \<times> 's) option" where
  "count nxt self = (case nxt self of (element, s1) \<Rightarrow> count_while nxt 0 element s1)"

text \<open>\<^verbatim>\<open>collect\<close> (lines 181-200): the \<^verbatim>\<open>requires\<close> clause, then the loop.\<close>

partial_function (option) collect_while ::
  "container_type \<Rightarrow> ('s \<Rightarrow> 'a option \<times> 's) \<Rightarrow> 'a list \<Rightarrow> 'a option \<Rightarrow> 's \<Rightarrow> ('a list \<times> 's) option" where
  "collect_while C nxt result element self =
     (case element of
        None \<Rightarrow> Some (result, self)
      | Some v \<Rightarrow>
          (case nxt self of (element', self') \<Rightarrow>
             collect_while C nxt
               (if has_add_assign C then add_assign result v else push_back result v)
               element' self'))"

definition collect ::
  "container_type \<Rightarrow> ('s \<Rightarrow> 'a option \<times> 's) \<Rightarrow> 's \<Rightarrow> build_error + ('a list \<times> 's) option" where
  "collect C nxt self =
     (if default_constructible C \<and> (has_add_assign C \<or> has_push_back C) then
        Inr (case nxt self of (element, s1) \<Rightarrow> collect_while C nxt [] element s1)
      else Inl Constraint_Not_Satisfied)"

subsection \<open>Entry points\<close>

text \<open>
  Modelled from the spec: the cursors of a container and the cursor-pair adapter
  \<^verbatim>\<open>IteratorStreamable\<close> of \<^verbatim>\<open>iterator_streamable.hpp\<close>, which is not among the
  sources. A cursor is a position in a container; a reverse cursor reads the element
  before its position and advances towards the front, as \<^verbatim>\<open>std::reverse_iterator\<close>
  does. The adapter is "constructed from a begin and end cursor over an existing
  sequence. Each call compares begin to end; if unequal, dereferences begin, advances it,
  and returns the dereferenced value wrapped; if equal, returns empty". Reading a cursor
  outside its container is undefined in C++; the factories below never build one.
\<close>

datatype 'a cursor =
    Const_Iterator "'a list" nat
  | Const_Reverse_Iterator "'a list" nat

definition cbegin :: "'a list \<Rightarrow> 'a cursor" where
  "cbegin container = Const_Iterator container 0"

definition cend :: "'a list \<Rightarrow> 'a cursor" where
  "cend container = Const_Iterator container (length container)"

definition crbegin :: "'a list \<Rightarrow> 'a cursor" where
  "crbegin container = Const_Reverse_Iterator container (length container)"

definition crend :: "'a list \<Rightarrow> 'a cursor" where
  "crend container = Const_Reverse_Iterator container 0"

fun deref :: "'a cursor \<Rightarrow> 'a" where
  "deref (Const_Iterator c i) = c ! i"
| "deref (Const_Reverse_Iterator c i) = c ! (i - 1)"

fun advance :: "'a cursor \<Rightarrow> 'a cursor" where
  "advance (Const_Iterator c i) = Const_Iterator c (Suc i)"
| "advance (Const_Reverse_Iterator c i) = Const_Reverse_Iterator c (i - 1)"

record 'a IteratorStreamable =
  it_current :: "'a cursor"
  it_end :: "'a cursor"

definition IteratorStreamable :: "'a cursor \<Rightarrow> 'a cursor \<Rightarrow> 'a IteratorStreamable" where
  "IteratorStreamable b e = \<lparr>it_current = b, it_end = e\<rparr>"

definition iterator_next :: "'a IteratorStreamable \<Rightarrow> 'a option \<times> 'a IteratorStreamable" where
  "iterator_next self =
     (if it_current self = it_end self then (None, self)
      else (Some (deref (it_current self)), self\<lparr>it_current := advance (it_current self)\<rparr>))"

text \<open>
  Modelled from the spec: the root stage \<^verbatim>\<open>BasicStream\<close> of \<^verbatim>\<open>basic_stream.hpp\<close>,
  which is not among the sources: a stage that owns a source adapter and pulls from it.
\<close>

datatype 's BasicStream = BasicStream (streamable: 's)

fun basic_next :: "('s \<Rightarrow> 'a option \<times> 's) \<Rightarrow> 's BasicStream \<Rightarrow> 'a option \<times> 's BasicStream" where
  "basic_next nxt (BasicStream s) = (case nxt s of (r, s') \<Rightarrow> (r, BasicStream s'))"

text \<open>
  Modelled from the spec: the type of a stage, which the class templates of the headers
  that are not among the sources fix. Composition is "each concrete stage statically
  wrapping its upstream's concrete type", with "each distinct pipeline shape being a
  distinct concrete type": a \<^verbatim>\<open>BasicStream\<close> over the adapter of two cursors has the cursor type
  in its type, and one over forward cursors is another type than one over reverse
  cursors. \<open>returned_as\<close> is the check of a returned stage against the cursor type of
  the declared return type.
\<close>

datatype cursor_type = const_iterator | const_reverse_iterator

fun cursor_type_of :: "'a cursor \<Rightarrow> cursor_type" where
  "cursor_type_of (Const_Iterator c i) = const_iterator"
| "cursor_type_of (Const_Reverse_Iterator c i) = const_reverse_iterator"

definition returned_as ::
  "cursor_type \<Rightarrow> 'a IteratorStreamable BasicStream \<Rightarrow> build_error + 'a IteratorStreamable BasicStream" where
  "returned_as I stream =
     (if cursor_type_of (it_current (streamable stream)) = I
         \<and> cursor_type_of (it_end (streamable stream)) = I
      then Inr stream else Inl No_Viable_Conversion)"

text \<open>
  \<^verbatim>\<open>make_stream\<close> (lines 203-207) and \<^verbatim>\<open>make_reverse_stream\<close> (lines 209-213). Both
  declare the return type \<^verbatim>\<open>BasicStream<IteratorStreamable<typename C<T>::const_iterator>>\<close>;
  the \<^verbatim>\<open>return\<close> statement of the first builds the stage from \<^verbatim>\<open>cbegin()\<close> and
  \<^verbatim>\<open>cend()\<close>, the one of the second from \<^verbatim>\<open>crbegin()\<close> and \<^verbatim>\<open>crend()\<close>.
\<close>

definition make_stream :: "'a list \<Rightarrow> build_error + 'a IteratorStreamable BasicStream" where
  "make_stream container =
     returned_as const_iterator (BasicStream (IteratorStreamable (cbegin container) (cend container)))"

definition make_reverse_stream :: "'a list \<Rightarrow> build_error + 'a IteratorStreamable BasicStream" where
  "make_reverse_stream container =
     returned_as const_iterator (BasicStream (IteratorStreamable (crbegin container) (crend container)))"

subsection \<open>What a stage yields\<close>

text \<open>
  \<open>yields nxt s xs s'\<close>: pulling from the stage in state \<open>s\<close> gives the elements of
  \<open>xs\<close> one after the other and then reports empty, which leaves the stage in state
  \<open>s'\<close>.
\<close>

fun yields :: "('s \<Rightarrow> 'a option \<times> 's) \<Rightarrow> 's \<Rightarrow> 'a list \<Rightarrow> 's \<Rightarrow> bool" where
  "yields nxt s [] s' = (nxt s = (None, s'))"
| "yields nxt s (x # xs) s' =
     (case nxt s of (Some y, s1) \<Rightarrow> y = x \<and> yields nxt s1 xs s' | (None, s1) \<Rightarrow> False)"

text \<open>
  \<open>logged nxt\<close> is the stage \<open>nxt\<close> with a record of every answer it has given, oldest
  first: what a terminal operation pulled, and in which order.
\<close>

definition logged ::
  "('s \<Rightarrow> 'a option \<times> 's) \<Rightarrow> 's \<times> 'a option list \<Rightarrow> 'a option \<times> ('s \<times> 'a option list)" where
  "logged nxt = (\<lambda>(s, answers). case nxt s of (r, s') \<Rightarrow> (r, (s', answers @ [r])))"

text \<open>The running result of \<^verbatim>\<open>min\<close> and \<^verbatim>\<open>max\<close> after one more element.\<close>

definition keep_or_replace :: "('a \<Rightarrow> 'a \<Rightarrow> bool) \<Rightarrow> 'a \<Rightarrow> 'a \<Rightarrow> 'a" where
  "keep_or_replace replace result v = (if replace v result then v else result)"

subsection \<open>Orders and example instantiations\<close>

text \<open>
  What "minimal", "maximal" and "equal" mean for an element type whose comparison is any
  binary predicate: a strict weak order is irreflexive and transitive, and so is its
  incomparability. Two elements are equal under it when neither is below the other.
\<close>

definition strict_weak_order :: "('a \<Rightarrow> 'a \<Rightarrow> bool) \<Rightarrow> bool" where
  "strict_weak_order R \<longleftrightarrow>
     (\<forall>a. \<not> R a a)
     \<and> (\<forall>a b c. R a b \<and> R b c \<longrightarrow> R a c)
     \<and> (\<forall>a b c. \<not> R a b \<and> \<not> R b c \<longrightarrow> \<not> R a c)"

text \<open>
  Element types and a target container to instantiate the template with: \<^verbatim>\<open>int\<close>; a
  structure of a key and a label which provides only \<^verbatim>\<open>operator<\<close>, comparing the keys;
  the same structure providing only \<^verbatim>\<open>operator>\<close>; the callable
  \<^verbatim>\<open>[](int&& x) { return true; }\<close>, which is a function of the shape \<^verbatim>\<open>int -> bool\<close>
  (it converts to \<^verbatim>\<open>std::function<bool(int)>\<close>) and cannot be called with an lvalue, so
  that it does not convert to \<^verbatim>\<open>std::function<void(int&)>\<close>; and \<^verbatim>\<open>std::vector\<close>,
  which has \<^verbatim>\<open>push_back\<close> and no \<^verbatim>\<open>operator+=\<close>.
\<close>

definition int_type :: "int value_type" where
  "int_type = \<lparr>op_add = Some (\<lambda>a b. a + b), op_lth = Some (\<lambda>a b. a < b), op_gth = Some (\<lambda>a b. a > b)\<rparr>"

definition key_lth_only :: "(nat \<times> string) value_type" where
  "key_lth_only = \<lparr>op_add = None, op_lth = Some (\<lambda>a b. fst a < fst b), op_gth = None\<rparr>"

definition key_gth_only :: "(nat \<times> string) value_type" where
  "key_gth_only = \<lparr>op_add = None, op_lth = None, op_gth = Some (\<lambda>a b. fst a > fst b)\<rparr>"

definition rvalue_predicate :: "int callable_type" where
  "rvalue_predicate = \<lparr>converts_to_function_void_ref = False, as_predicate = Some (\<lambda>x. True)\<rparr>"

definition vector_type :: container_type where
  "vector_type = \<lparr>default_constructible = True, has_add_assign = False, has_push_back = True\<rparr>"

section \<open>The loops return what a fold computes\<close>

lemma reduce_while_yields:
  "yields nxt s xs s' \<Longrightarrow>
   reduce_while f nxt acc (Some v) s = Some (foldl f acc (v # xs), s')"
proof (induction xs arbitrary: acc v s)
  case Nil
  then show ?case by (simp add: reduce_while.simps)
next
  case (Cons x xs)
  then show ?case
    by (subst reduce_while.simps) (auto split: prod.splits option.splits)
qed

lemma extremum_while_yields:
  "yields nxt s xs s' \<Longrightarrow>
   extremum_while replace nxt result (Some v) s =
     Some (foldl (keep_or_replace replace) result (v # xs), s')"
proof (induction xs arbitrary: result v s)
  case Nil
  then show ?case by (simp add: extremum_while.simps keep_or_replace_def)
next
  case (Cons x xs)
  from Cons.prems obtain s1 where n: "nxt s = (Some x, s1)" and y: "yields nxt s1 xs s'"
    by (auto split: prod.splits option.splits)
  have "extremum_while replace nxt result (Some v) s =
        extremum_while replace nxt (keep_or_replace replace result v) (Some x) s1"
    by (subst extremum_while.simps) (simp add: n keep_or_replace_def)
  also have "\<dots> = Some (foldl (keep_or_replace replace) (keep_or_replace replace result v) (x # xs), s')"
    by (rule Cons.IH [OF y])
  finally show ?case by simp
qed

lemma count_while_yields:
  "yields nxt s xs s' \<Longrightarrow>
   count_while nxt result (Some v) s = Some (result + of_nat (Suc (length xs)), s')"
proof (induction xs arbitrary: result v s)
  case Nil
  then show ?case by (simp add: count_while.simps)
next
  case (Cons x xs)
  from Cons.prems obtain s1 where n: "nxt s = (Some x, s1)" and y: "yields nxt s1 xs s'"
    by (auto split: prod.splits option.splits)
  have "count_while nxt result (Some v) s = count_while nxt (result + 1) (Some x) s1"
    by (subst count_while.simps) (simp add: n)
  also have "\<dots> = Some (result + 1 + of_nat (Suc (length xs)), s')"
    by (rule Cons.IH [OF y])
  finally show ?case by (simp add: add.assoc)
qed

lemma collect_while_yields:
  "yields nxt s xs s' \<Longrightarrow>
   collect_while C nxt result (Some v) s = Some (result @ v # xs, s')"
proof (induction xs arbitrary: result v s)
  case Nil
  then show ?case by (simp add: collect_while.simps add_assign_def push_back_def)
next
  case (Cons x xs)
  from Cons.prems obtain s1 where n: "nxt s = (Some x, s1)" and y: "yields nxt s1 xs s'"
    by (auto split: prod.splits option.splits)
  have "collect_while C nxt result (Some v) s = collect_while C nxt (result @ [v]) (Some x) s1"
    by (subst collect_while.simps) (simp add: n add_assign_def push_back_def)
  also have "\<dots> = Some ((result @ [v]) @ x # xs, s')"
    by (rule Cons.IH [OF y])
  finally show ?case by simp
qed

lemma reduce_while_None: "reduce_while f nxt acc None s = Some (acc, s)"
  by (subst reduce_while.simps) simp

lemma extremum_while_None: "extremum_while replace nxt result None s = Some (result, s)"
  by (subst extremum_while.simps) simp

lemma count_while_None: "count_while nxt result None s = Some (result, s)"
  by (subst count_while.simps) simp

lemma collect_while_None: "collect_while C nxt result None s = Some (result, s)"
  by (subst collect_while.simps) simp

lemma yields_Cons:
  "yields nxt s (x # xs) s' \<Longrightarrow> \<exists>s1. nxt s = (Some x, s1) \<and> yields nxt s1 xs s'"
  by (auto split: prod.splits option.splits)

lemma yields_pull:
  "yields nxt s xs s' \<Longrightarrow>
   \<exists>s1. nxt s = (case xs of [] \<Rightarrow> None | x # r \<Rightarrow> Some x, s1)
        \<and> (case xs of [] \<Rightarrow> s1 = s' | x # r \<Rightarrow> yields nxt s1 r s')"
  by (cases xs) (auto split: prod.splits option.splits)

lemma reduce_yields:
  assumes "yields nxt s xs s'"
  shows "reduce f nxt s = Some (case xs of [] \<Rightarrow> None | a # rest \<Rightarrow> Some (foldl f a rest), s')"
proof (cases xs)
  case Nil
  with assms show ?thesis by (simp add: reduce_def)
next
  case (Cons a rest)
  with assms obtain s1 where n: "nxt s = (Some a, s1)" and y: "yields nxt s1 rest s'"
    using yields_Cons by fastforce
  show ?thesis
  proof (cases rest)
    case Nil
    with y have "nxt s1 = (None, s')" by simp
    with n Nil \<open>xs = a # rest\<close> show ?thesis
      by (simp add: reduce_def reduce_while_None)
  next
    case (Cons b r)
    with y obtain s2 where n2: "nxt s1 = (Some b, s2)" and y2: "yields nxt s2 r s'"
      using yields_Cons by fastforce
    from n n2 reduce_while_yields [OF y2, of f a b] Cons \<open>xs = a # rest\<close> show ?thesis
      by (simp add: reduce_def)
  qed
qed

lemma extremum_yields:
  assumes "yields nxt s xs s'"
  shows "extremum replace nxt s =
     Some (case xs of [] \<Rightarrow> None | a # rest \<Rightarrow> Some (foldl (keep_or_replace replace) a rest), s')"
proof (cases xs)
  case Nil
  with assms show ?thesis by (simp add: extremum_def)
next
  case (Cons a rest)
  with assms obtain s1 where n: "nxt s = (Some a, s1)" and y: "yields nxt s1 rest s'"
    using yields_Cons by fastforce
  show ?thesis
  proof (cases rest)
    case Nil
    with y have "nxt s1 = (None, s')" by simp
    with n Nil \<open>xs = a # rest\<close> show ?thesis
      by (simp add: extremum_def extremum_while_None)
  next
    case (Cons b r)
    with y obtain s2 where n2: "nxt s1 = (Some b, s2)" and y2: "yields nxt s2 r s'"
      using yields_Cons by fastforce
    from n n2 extremum_while_yields [OF y2, of replace a b] Cons \<open>xs = a # rest\<close> show ?thesis
      by (simp add: extremum_def)
  qed
qed

lemma count_yields:
  assumes "yields nxt s xs s'"
  shows "count nxt s = Some (of_nat (length xs), s')"
proof (cases xs)
  case Nil
  with assms show ?thesis by (simp add: count_def count_while_None)
next
  case (Cons a rest)
  with assms obtain s1 where n: "nxt s = (Some a, s1)" and y: "yields nxt s1 rest s'"
    using yields_Cons by fastforce
  from n count_while_yields [OF y, of 0 a] Cons show ?thesis
    by (simp add: count_def)
qed

lemma collect_yields:
  assumes "yields nxt s xs s'"
    and "default_constructible C" and "has_add_assign C \<or> has_push_back C"
  shows "collect C nxt s = Inr (Some (xs, s'))"
proof (cases xs)
  case Nil
  with assms show ?thesis by (simp add: collect_def collect_while_None)
next
  case (Cons a rest)
  with assms obtain s1 where n: "nxt s = (Some a, s1)" and y: "yields nxt s1 rest s'"
    using yields_Cons by fastforce
  from n collect_while_yields [OF y, of C "[]" a] Cons assms(2,3) show ?thesis
    by (simp add: collect_def)
qed

lemma basic_yields:
  "yields nxt s xs s' \<Longrightarrow> yields (basic_next nxt) (BasicStream s) xs (BasicStream s')"
  by (induction xs arbitrary: s) (auto split: prod.splits option.splits)

lemma logged_yields:
  "yields nxt s xs s' \<Longrightarrow>
   yields (logged nxt) (s, answers) xs (s', answers @ map Some xs @ [None])"
proof (induction xs arbitrary: s answers)
  case Nil
  then show ?case by (simp add: logged_def)
next
  case (Cons x xs)
  from Cons.prems obtain s1 where n: "nxt s = (Some x, s1)" and y: "yields nxt s1 xs s'"
    by (auto split: prod.splits option.splits)
  have l: "logged nxt (s, answers) = (Some x, (s1, answers @ [Some x]))"
    by (simp add: logged_def n)
  from Cons.IH [OF y, of "answers @ [Some x]"] l show ?case by simp
qed

lemma iterator_yields:
  "i \<le> length c \<Longrightarrow>
   yields iterator_next \<lparr>it_current = Const_Iterator c i, it_end = cend c\<rparr> (drop i c)
     \<lparr>it_current = cend c, it_end = cend c\<rparr>"
proof (induction "length c - i" arbitrary: i)
  case 0
  then show ?case by (simp add: iterator_next_def cend_def)
next
  case (Suc n)
  then have lt: "i < length c" by simp
  then have d: "drop i c = c ! i # drop (Suc i) c" by (simp add: Cons_nth_drop_Suc)
  from Suc lt have "yields iterator_next \<lparr>it_current = Const_Iterator c (Suc i), it_end = cend c\<rparr>
     (drop (Suc i) c) \<lparr>it_current = cend c, it_end = cend c\<rparr>"
    by simp
  with lt d show ?case by (simp add: iterator_next_def cend_def)
qed

lemma reverse_iterator_yields:
  "i \<le> length c \<Longrightarrow>
   yields iterator_next \<lparr>it_current = Const_Reverse_Iterator c i, it_end = crend c\<rparr> (rev (take i c))
     \<lparr>it_current = crend c, it_end = crend c\<rparr>"
proof (induction i)
  case 0
  then show ?case by (simp add: iterator_next_def crend_def)
next
  case (Suc i)
  then have "take (Suc i) c = take i c @ [c ! i]" by (simp add: take_Suc_conv_app_nth)
  with Suc show ?case by (simp add: iterator_next_def crend_def)
qed

section \<open>The stages\<close>

lemma limiting_next_exhausted:
  "max_count self \<le> consumed self \<Longrightarrow> limiting_next up self = (None, self)"
  by (simp add: limiting_next_def)

lemma limiting_yields:
  fixes n c :: "'w::len word"
  assumes "yields up u xs u'" and "c \<le> n"
  shows "\<exists>self'. yields (limiting_next up) \<lparr>upstream = u, max_count = n, consumed = c\<rparr>
           (take (unat n - unat c) xs) self'"
  using assms
proof (induction xs arbitrary: u c)
  case Nil
  then show ?case by (simp add: limiting_next_def)
next
  case (Cons x xs)
  from Cons.prems(1) obtain u1 where n: "up u = (Some x, u1)" and y: "yields up u1 xs u'"
    using yields_Cons by fastforce
  show ?case
  proof (cases "n \<le> c")
    case True
    with Cons.prems(2) have "unat n - unat c = 0" by (simp add: word_le_nat_alt)
    moreover from True have
      "limiting_next up \<lparr>upstream = u, max_count = n, consumed = c\<rparr> =
         (None, \<lparr>upstream = u, max_count = n, consumed = c\<rparr>)"
      by (simp add: limiting_next_def)
    ultimately show ?thesis by simp
  next
    case False
    then have lt: "c < n" by simp
    have b: "unat n < 2 ^ LENGTH('w)" by (rule unsigned_less)
    from lt have cn: "unat c < unat n" by (simp add: word_less_nat_alt)
    from cn b have "Suc (unat c) < 2 ^ LENGTH('w)" by (rule Suc_lessI [OF less_trans, THEN Suc_lessD, THEN Suc_leI, THEN le_less_trans, rotated -1] | arith)
    then have "unat c + unat (1 :: 'w word) < 2 ^ LENGTH('w)" by simp
    then have "unat (c + 1) = unat c + unat (1 :: 'w word)"
      by (simp only: unat_add_lem)
    then have u: "unat (c + 1) = Suc (unat c)" by simp
    from lt have le: "c + 1 \<le> n" by (rule inc_le)
    from cn u have t: "unat n - unat c = Suc (unat n - unat (c + 1))" by simp
    from Cons.IH [OF y le] obtain self' where
      "yields (limiting_next up) \<lparr>upstream = u1, max_count = n, consumed = c + 1\<rparr>
         (take (unat n - unat (c + 1)) xs) self'" by blast
    moreover from False n have
      "limiting_next up \<lparr>upstream = u, max_count = n, consumed = c\<rparr> =
         (Some x, \<lparr>upstream = u1, max_count = n, consumed = c + 1\<rparr>)"
      by (simp add: limiting_next_def)
    ultimately show ?thesis using t by auto
  qed
qed

lemma limit_count:
  fixes n :: "'w::len word"
  assumes "yields nxt s xs s'"
  shows "\<exists>(k :: 'w word) self'. count (limiting_next nxt) (limit s n) = Some (k, self')
           \<and> unat k = min (unat n) (length xs)"
proof -
  from limiting_yields [OF assms, of 0 n] obtain self' where
    y: "yields (limiting_next nxt) (limit s n) (take (unat n) xs) self'"
    by (auto simp: limit_def)
  have "length (take (unat n) xs) \<le> unat n" by simp
  then have "unat (of_nat (length (take (unat n) xs)) :: 'w word) = length (take (unat n) xs)"
    by (rule le_unat_uoi)
  with count_yields [OF y] show ?thesis by (auto simp: min.commute)
qed

lemma limiting_next_stays:
  "max_count self \<le> consumed self \<Longrightarrow>
   limiting_next up (((\<lambda>st. snd (limiting_next up st)) ^^ k) self) = (None, self)"
  by (induction k) (simp_all add: limiting_next_def)

lemma forward_stream_yields:
  "yields (basic_next iterator_next)
     (BasicStream (IteratorStreamable (cbegin c) (cend c))) c
     (BasicStream (IteratorStreamable (cend c) (cend c)))"
  using iterator_yields [of 0 c] basic_yields
  by (fastforce simp: IteratorStreamable_def cbegin_def)

lemma reverse_stream_yields:
  "yields (basic_next iterator_next)
     (BasicStream (IteratorStreamable (crbegin c) (crend c))) (rev c)
     (BasicStream (IteratorStreamable (crend c) (crend c)))"
  using reverse_iterator_yields [of "length c" c] basic_yields
  by (fastforce simp: IteratorStreamable_def crbegin_def)

section \<open>Which comparison an instantiation keeps\<close>

lemma min_replace_lth:
  "op_lth T = Some lt \<Longrightarrow> min_replace T = Inr (\<lambda>v result. lt v result)"
  by (simp add: min_replace_def has_lth_def)

lemma min_replace_gth_only:
  "op_lth T = None \<Longrightarrow> op_gth T = Some gt \<Longrightarrow> min_replace T = Inr (\<lambda>v result. \<not> gt v result)"
  by (simp add: min_replace_def has_lth_def has_gth_def)

lemma max_replace_both:
  "op_lth T = Some lt \<Longrightarrow> op_gth T = Some gt \<Longrightarrow> max_replace T = Inr (\<lambda>v result. gt v result)"
  by (simp add: max_replace_def has_lth_def)

lemma max_replace_lth_only:
  "op_lth T = Some lt \<Longrightarrow> op_gth T = None \<Longrightarrow> max_replace T = Inl No_Match_For_Operator_Gth"
  by (simp add: max_replace_def has_lth_def)

lemma max_replace_gth_only:
  "op_lth T = None \<Longrightarrow> op_gth T = Some gt \<Longrightarrow> max_replace T = Inl No_Match_For_Operator_Lth"
  by (simp add: max_replace_def has_lth_def has_gth_def)

lemma min_replace_accepted_iff:
  "(\<exists>replace. min_replace T = Inr replace) \<longleftrightarrow> has_lth T \<or> has_gth T"
  by (cases "op_lth T"; cases "op_gth T") (simp_all add: min_replace_def has_lth_def has_gth_def)

lemma max_replace_accepted_iff:
  "(\<exists>replace. max_replace T = Inr replace) \<longleftrightarrow> has_lth T \<and> has_gth T"
  by (cases "op_lth T"; cases "op_gth T") (simp_all add: max_replace_def has_lth_def has_gth_def)

lemma sum_stream_yields:
  assumes "yields nxt s xs s'" and "has_add T"
  shows "\<exists>add. op_add T = Some add \<and>
     sum_stream T nxt s = Inr (Some (case xs of [] \<Rightarrow> None | a # rest \<Rightarrow> Some (foldl add a rest), s'))"
proof -
  from assms(2) obtain add where a: "op_add T = Some add" by (auto simp: has_add_def)
  with reduce_yields [OF assms(1), of add] assms(2) show ?thesis by (simp add: sum_stream_def)
qed

lemma min_stream_yields:
  assumes "yields nxt s xs s'" and "has_lth T \<or> has_gth T"
  shows "\<exists>replace. min_replace T = Inr replace \<and>
     min_stream T nxt s =
       Inr (Some (case xs of [] \<Rightarrow> None | a # rest \<Rightarrow> Some (foldl (keep_or_replace replace) a rest), s'))"
proof -
  from assms(2) obtain replace where r: "min_replace T = Inr replace"
    using min_replace_accepted_iff by blast
  with extremum_yields [OF assms(1), of replace] show ?thesis by (simp add: min_stream_def)
qed

lemma max_stream_yields:
  assumes "yields nxt s xs s'" and "has_lth T \<and> has_gth T"
  shows "\<exists>replace. max_replace T = Inr replace \<and>
     max_stream T nxt s =
       Inr (Some (case xs of [] \<Rightarrow> None | a # rest \<Rightarrow> Some (foldl (keep_or_replace replace) a rest), s'))"
proof -
  from assms(2) obtain replace where r: "max_replace T = Inr replace"
    using max_replace_accepted_iff by blast
  with extremum_yields [OF assms(1), of replace] show ?thesis by (simp add: max_stream_def)
qed

section \<open>Which element the comparison loop keeps\<close>

lemma find_stronger_test:
  "find P xs = Some r \<Longrightarrow> (\<forall>y \<in> set xs. Q y \<longrightarrow> P y) \<Longrightarrow> Q r \<Longrightarrow> find Q xs = Some r"
  by (induction xs) (auto split: if_splits)

lemma find_append_cases:
  "find P (xs @ ys) = (case find P xs of None \<Rightarrow> find P ys | Some x \<Rightarrow> Some x)"
  by (induction xs) simp_all

lemma keep_or_replace_yes: "replace v result \<Longrightarrow> keep_or_replace replace result v = v"
  by (simp add: keep_or_replace_def)

lemma keep_or_replace_no: "\<not> replace v result \<Longrightarrow> keep_or_replace replace result v = result"
  by (simp add: keep_or_replace_def)

lemma find_Some_in_set: "find P xs = Some r \<Longrightarrow> r \<in> set xs \<and> P r"
  by (induction xs) (auto split: if_splits)

lemma foldl_keeps_first_extreme:
  assumes "strict_weak_order R"
  shows "find (\<lambda>y. \<forall>x \<in> set (a # rest). \<not> R x y) (a # rest)
           = Some (foldl (keep_or_replace R) a rest)"
proof (induction rest rule: rev_induct)
  case Nil
  from assms have "\<not> R a a" unfolding strict_weak_order_def by blast
  then show ?case by simp
next
  case (snoc v rest)
  let ?ys = "a # rest"
  let ?r = "foldl (keep_or_replace R) a rest"
  from assms have irrefl: "\<And>x. \<not> R x x"
    and trans: "\<And>x y z. R x y \<Longrightarrow> R y z \<Longrightarrow> R x z"
    and negtrans: "\<And>x y z. \<not> R x y \<Longrightarrow> \<not> R y z \<Longrightarrow> \<not> R x z"
    unfolding strict_weak_order_def by blast+
  from find_Some_in_set [OF snoc.IH] have r_in: "?r \<in> set ?ys"
    and r_min: "\<forall>x \<in> set ?ys. \<not> R x ?r" by blast+
  show ?case
  proof (cases "R v ?r")
    case True
    have "\<forall>y \<in> set ?ys. R v y"
    proof
      fix y assume "y \<in> set ?ys"
      with r_min have "\<not> R y ?r" by blast
      with True negtrans show "R v y" by blast
    qed
    then have none: "find (\<lambda>y. \<forall>x \<in> set (?ys @ [v]). \<not> R x y) ?ys = None"
      by (auto simp: find_None_iff)
    have "\<forall>x \<in> set (?ys @ [v]). \<not> R x v"
    proof
      fix x assume "x \<in> set (?ys @ [v])"
      then consider "x = v" | "x \<in> set ?ys" by auto
      then show "\<not> R x v"
      proof cases
        case 1 with irrefl show ?thesis by simp
      next
        case 2
        with r_min have "\<not> R x ?r" by blast
        with True trans show ?thesis by blast
      qed
    qed
    then have "find (\<lambda>y. \<forall>x \<in> set (?ys @ [v]). \<not> R x y) [v] = Some v" by simp
    with none have "find (\<lambda>y. \<forall>x \<in> set (?ys @ [v]). \<not> R x y) (?ys @ [v]) = Some v"
      by (simp only: find_append_cases option.case)
    with keep_or_replace_yes [of R v ?r, OF True] show ?thesis by simp
  next
    case False
    with r_min have m: "\<forall>x \<in> set (?ys @ [v]). \<not> R x ?r" by auto
    have w: "\<forall>y \<in> set ?ys. (\<forall>x \<in> set (?ys @ [v]). \<not> R x y) \<longrightarrow> (\<forall>x \<in> set ?ys. \<not> R x y)"
      by auto
    have "find (\<lambda>y. \<forall>x \<in> set (?ys @ [v]). \<not> R x y) ?ys = Some ?r"
      by (rule find_stronger_test [OF snoc.IH w m])
    then have "find (\<lambda>y. \<forall>x \<in> set (?ys @ [v]). \<not> R x y) (?ys @ [v]) = Some ?r"
      by (simp only: find_append_cases option.case)
    with keep_or_replace_no [of R v ?r, OF False] show ?thesis by simp
  qed
qed

lemma foldl_inverted_keeps_last_extreme:
  assumes "strict_weak_order R"
  shows "find (\<lambda>y. \<forall>x \<in> set (a # rest). \<not> R y x) (rev (a # rest))
           = Some (foldl (keep_or_replace (\<lambda>v result. \<not> R v result)) a rest)"
proof (induction rest rule: rev_induct)
  case Nil
  from assms have "\<not> R a a" unfolding strict_weak_order_def by blast
  then show ?case by simp
next
  case (snoc v rest)
  let ?ys = "a # rest"
  let ?r = "foldl (keep_or_replace (\<lambda>v result. \<not> R v result)) a rest"
  from assms have irrefl: "\<And>x. \<not> R x x"
    and trans: "\<And>x y z. R x y \<Longrightarrow> R y z \<Longrightarrow> R x z"
    and negtrans: "\<And>x y z. \<not> R x y \<Longrightarrow> \<not> R y z \<Longrightarrow> \<not> R x z"
    unfolding strict_weak_order_def by blast+
  from find_Some_in_set [OF snoc.IH] have r_in: "?r \<in> set ?ys"
    and r_min: "\<forall>x \<in> set ?ys. \<not> R ?r x" by auto
  have rv: "rev (?ys @ [v]) = v # rev ?ys" by simp
  show ?case
  proof (cases "R v ?r")
    case False
    have "\<forall>x \<in> set (?ys @ [v]). \<not> R v x"
    proof
      fix x assume "x \<in> set (?ys @ [v])"
      then consider "x = v" | "x \<in> set ?ys" by auto
      then show "\<not> R v x"
      proof cases
        case 1 with irrefl show ?thesis by simp
      next
        case 2
        with r_min have "\<not> R ?r x" by blast
        with False negtrans show ?thesis by blast
      qed
    qed
    then have "find (\<lambda>y. \<forall>x \<in> set (?ys @ [v]). \<not> R y x) (v # rev ?ys) = Some v" by simp
    with keep_or_replace_yes [of "\<lambda>v result. \<not> R v result" v ?r, OF False] rv
    show ?thesis by simp
  next
    case True
    with r_in have "\<not> (\<forall>x \<in> set (?ys @ [v]). \<not> R v x)" by auto
    then have skip: "find (\<lambda>y. \<forall>x \<in> set (?ys @ [v]). \<not> R y x) (v # rev ?ys)
        = find (\<lambda>y. \<forall>x \<in> set (?ys @ [v]). \<not> R y x) (rev ?ys)"
      by (simp only: find.simps if_False)
    from True irrefl trans have "\<not> R ?r v" by blast
    with r_min have m: "\<forall>x \<in> set (?ys @ [v]). \<not> R ?r x" by auto
    have w: "\<forall>y \<in> set (rev ?ys). (\<forall>x \<in> set (?ys @ [v]). \<not> R y x) \<longrightarrow> (\<forall>x \<in> set ?ys. \<not> R y x)"
      by auto
    have "find (\<lambda>y. \<forall>x \<in> set (?ys @ [v]). \<not> R y x) (rev ?ys) = Some ?r"
      by (rule find_stronger_test [OF snoc.IH w m])
    moreover from True have "keep_or_replace (\<lambda>v result. \<not> R v result) ?r v = ?r"
      by (simp add: keep_or_replace_no)
    ultimately show ?thesis using skip rv by simp
  qed
qed

lemma min_with_lth_returns_first_minimal:
  assumes "yields nxt s (a # rest) s'" and "op_lth T = Some lt" and "strict_weak_order lt"
  shows "\<exists>r. min_stream T nxt s = Inr (Some (Some r, s'))
           \<and> find (\<lambda>y. \<forall>x \<in> set (a # rest). \<not> lt x y) (a # rest) = Some r"
  using extremum_yields [OF assms(1), of "\<lambda>v result. lt v result"]
    min_replace_lth [OF assms(2)] foldl_keeps_first_extreme [OF assms(3), of a rest]
  by (simp add: min_stream_def)

lemma max_with_both_returns_first_maximal:
  assumes "yields nxt s (a # rest) s'" and "op_lth T = Some lt" and "op_gth T = Some gt"
    and "strict_weak_order gt"
  shows "\<exists>r. max_stream T nxt s = Inr (Some (Some r, s'))
           \<and> find (\<lambda>y. \<forall>x \<in> set (a # rest). \<not> gt x y) (a # rest) = Some r"
  using extremum_yields [OF assms(1), of "\<lambda>v result. gt v result"]
    max_replace_both [OF assms(2,3)] foldl_keeps_first_extreme [OF assms(4), of a rest]
  by (simp add: max_stream_def)

lemma min_with_only_gth_returns_last_minimal_element:
  assumes "yields nxt s (a # rest) s'" and "op_lth T = None" and "op_gth T = Some gt"
    and "strict_weak_order gt"
  shows "\<exists>r. min_stream T nxt s = Inr (Some (Some r, s'))
           \<and> find (\<lambda>y. \<forall>x \<in> set (a # rest). \<not> gt y x) (rev (a # rest)) = Some r"
  using extremum_yields [OF assms(1), of "\<lambda>v result. \<not> gt v result"]
    min_replace_gth_only [OF assms(2,3)] foldl_inverted_keeps_last_extreme [OF assms(4), of a rest]
  by (simp add: min_stream_def)

lemma max_stream_rejected_iff:
  "(\<exists>e. max_stream T nxt s = Inl e) \<longleftrightarrow> \<not> (has_lth T \<and> has_gth T)"
  using max_replace_accepted_iff [of T]
  by (cases "max_replace T") (auto simp: max_stream_def)

lemma min_stream_rejected_iff:
  "(\<exists>e. min_stream T nxt s = Inl e) \<longleftrightarrow> \<not> (has_lth T \<or> has_gth T)"
  using min_replace_accepted_iff [of T]
  by (cases "min_replace T") (auto simp: min_stream_def)

section \<open>Empty pipelines and pipelines of one element\<close>

lemma empty_and_single_where_instantiated:
  "(yields nxt s [] s' \<longrightarrow>
      (has_add T \<longrightarrow> sum_stream T nxt s = Inr (Some (None, s')))
      \<and> (has_lth T \<or> has_gth T \<longrightarrow> min_stream T nxt s = Inr (Some (None, s')))
      \<and> (has_lth T \<and> has_gth T \<longrightarrow> max_stream T nxt s = Inr (Some (None, s'))))
   \<and> (yields nxt s [x] s' \<longrightarrow>
      (has_add T \<longrightarrow> sum_stream T nxt s = Inr (Some (Some x, s')))
      \<and> (has_lth T \<or> has_gth T \<longrightarrow> min_stream T nxt s = Inr (Some (Some x, s')))
      \<and> (has_lth T \<and> has_gth T \<longrightarrow> max_stream T nxt s = Inr (Some (Some x, s'))))"
proof (intro conjI impI)
  assume y: "yields nxt s [] s'"
  { assume "has_add T"
    from sum_stream_yields [OF y this] show "sum_stream T nxt s = Inr (Some (None, s'))" by auto }
  { assume "has_lth T \<or> has_gth T"
    from min_stream_yields [OF y this] show "min_stream T nxt s = Inr (Some (None, s'))" by auto }
  { assume "has_lth T \<and> has_gth T"
    from max_stream_yields [OF y this] show "max_stream T nxt s = Inr (Some (None, s'))" by auto }
next
  assume y: "yields nxt s [x] s'"
  { assume "has_add T"
    from sum_stream_yields [OF y this] show "sum_stream T nxt s = Inr (Some (Some x, s'))" by auto }
  { assume "has_lth T \<or> has_gth T"
    from min_stream_yields [OF y this] show "min_stream T nxt s = Inr (Some (Some x, s'))" by auto }
  { assume "has_lth T \<and> has_gth T"
    from max_stream_yields [OF y this] show "max_stream T nxt s = Inr (Some (Some x, s'))" by auto }
qed

section \<open>The claims\<close>

text \<open>
  Claim C1. For every non-empty pipeline over an element type that provides only
  \<^verbatim>\<open>operator>\<close>, \<^verbatim>\<open>min\<close> replaces the running result only when a later element is
  strictly smaller, never when it is equal, and so returns the first minimal element in
  pull order. The code does otherwise: over two elements with equal keys, pulled as
  "first" and then "second", \<^verbatim>\<open>min\<close> returns the second, because line 124 replaces
  the result whenever the new element is not greater. The lemma
  \<open>min_with_only_gth_returns_last_minimal_element\<close> is the general statement.
\<close>

theorem min_gth_only_tie_returns_second:
  "min_stream key_gth_only (basic_next iterator_next)
     (BasicStream (IteratorStreamable (cbegin [(1, ''first''), (1, ''second'')])
                                      (cend [(1, ''first''), (1, ''second'')])))
   = Inr (Some (Some (1, ''second''),
        BasicStream (IteratorStreamable (cend [(1, ''first''), (1, ''second'')])
                                        (cend [(1, ''first''), (1, ''second'')]))))"
proof -
  have "min_replace key_gth_only = Inr (\<lambda>v result. \<not> fst v > fst result)"
    by (simp add: min_replace_def key_gth_only_def has_lth_def has_gth_def)
  with extremum_yields [OF forward_stream_yields, of "\<lambda>v result. \<not> fst v > fst result"
      "[(1 :: nat, ''first''), (1, ''second'')]"]
  show ?thesis by (simp add: min_stream_def keep_or_replace_def)
qed

text \<open>
  Claim C2. For every non-empty pipeline over an element type that provides only one of
  \<^verbatim>\<open>operator<\<close> and \<^verbatim>\<open>operator>\<close>, \<^verbatim>\<open>max\<close> compiles, uses only the operator the
  type provides and returns a maximal element. The code does otherwise: with only
  \<^verbatim>\<open>operator<\<close> the instantiation applies \<^verbatim>\<open>operator>\<close> (line 152), and with only
  \<^verbatim>\<open>operator>\<close> it applies \<^verbatim>\<open>operator<\<close> (line 157), so either instantiation is
  rejected. The lemma \<open>max_stream_rejected_iff\<close> is the general statement.
\<close>

theorem max_with_one_operator_is_rejected:
  "max_stream \<lparr>op_add = Some (\<lambda>a b. a + b), op_lth = Some (\<lambda>a b. a < b), op_gth = None\<rparr>
     (basic_next iterator_next) (BasicStream (IteratorStreamable (cbegin [1, 2 :: int]) (cend [1, 2])))
     = Inl No_Match_For_Operator_Gth
   \<and> max_stream \<lparr>op_add = Some (\<lambda>a b. a + b), op_lth = None, op_gth = Some (\<lambda>a b. a > b)\<rparr>
     (basic_next iterator_next) (BasicStream (IteratorStreamable (cbegin [1, 2 :: int]) (cend [1, 2])))
     = Inl No_Match_For_Operator_Lth"
  by (simp add: max_stream_def max_replace_def has_lth_def has_gth_def)

text \<open>
  Claim C3. \<^verbatim>\<open>filter\<close> accepts exactly the predicates convertible to a function of the
  shape \<^verbatim>\<open>T -> bool\<close>: every such callable is accepted and builds a Filter stage, and
  every other callable is rejected at compile time. The code does otherwise: its
  \<^verbatim>\<open>requires\<close> clause (line 54) tests the shape \<^verbatim>\<open>void(T&)\<close>, so the predicate
  \<^verbatim>\<open>[](int&& x) { return true; }\<close>, which is of the shape \<^verbatim>\<open>int -> bool\<close>, is rejected
  whatever the Filter stage accepts.
\<close>

theorem filter_rejects_rvalue_predicate:
  "as_predicate rvalue_predicate = Some (\<lambda>x. True)
   \<and> filter_stream stage_accepts rvalue_predicate
        (BasicStream (IteratorStreamable (cbegin [1, 2 :: int]) (cend [1, 2])))
      = Inl Constraint_Not_Satisfied"
  by (simp add: filter_stream_def rvalue_predicate_def)

text \<open>
  Claim C4. For every pipeline and combine function \<open>f\<close>, \<^verbatim>\<open>reduce(f)\<close> returns empty
  when the pipeline yields no element; otherwise it seeds an accumulator with the first
  pulled element and folds each later element into it left to right in pull order. For
  a pipeline that yields \<open>[a, b, c]\<close> the result is \<open>f (f a b) c\<close>.
\<close>

theorem reduce_folds_left:
  assumes "yields nxt s xs s'"
  shows "reduce f nxt s =
           Some (case xs of [] \<Rightarrow> None | a # rest \<Rightarrow> Some (foldl f a rest), s')
         \<and> (xs = [a, b, c] \<longrightarrow> reduce f nxt s = Some (Some (f (f a b) c), s'))"
  using reduce_yields [OF assms, of f] by auto

theorem reduce_folds_left_witness:
  "yields (basic_next iterator_next)
     (BasicStream (IteratorStreamable (cbegin [10, 3, 2 :: int]) (cend [10, 3, 2])))
     [10, 3, 2]
     (BasicStream (IteratorStreamable (cend [10, 3, 2]) (cend [10, 3, 2])))
   \<and> reduce (\<lambda>a b. a - b) (basic_next iterator_next)
       (BasicStream (IteratorStreamable (cbegin [10, 3, 2 :: int]) (cend [10, 3, 2])))
     = Some (Some 5, BasicStream (IteratorStreamable (cend [10, 3, 2]) (cend [10, 3, 2])))
   \<and> yields (basic_next iterator_next)
     (BasicStream (IteratorStreamable (cbegin ([] :: int list)) (cend [])))
     []
     (BasicStream (IteratorStreamable (cend []) (cend [])))
   \<and> reduce (\<lambda>a b. a - b) (basic_next iterator_next)
       (BasicStream (IteratorStreamable (cbegin ([] :: int list)) (cend [])))
     = Some (None, BasicStream (IteratorStreamable (cend []) (cend [])))"
proof -
  have y: "yields (basic_next iterator_next)
     (BasicStream (IteratorStreamable (cbegin [10, 3, 2 :: int]) (cend [10, 3, 2])))
     [10, 3, 2]
     (BasicStream (IteratorStreamable (cend [10, 3, 2]) (cend [10, 3, 2])))"
    by (simp add: iterator_next_def IteratorStreamable_def cbegin_def cend_def)
  have e: "yields (basic_next iterator_next)
     (BasicStream (IteratorStreamable (cbegin ([] :: int list)) (cend [])))
     []
     (BasicStream (IteratorStreamable (cend []) (cend [])))"
    by (simp add: iterator_next_def IteratorStreamable_def cbegin_def cend_def)
  from y e reduce_folds_left [OF y, of "\<lambda>a b. a - b" 10 3 2]
    reduce_folds_left [OF e, of "\<lambda>a b. a - b" 10 3 2]
  show ?thesis by simp
qed

text \<open>
  Claim C5. For every finite sequence \<open>xs\<close> and every \<open>n\<close>, \<^verbatim>\<open>limit(n).count()\<close> on a
  pipeline that yields \<open>xs\<close> is \<open>min n (length xs)\<close>; and a Limit stage whose
  consumed counter has reached the maximum answers every further pull with empty and
  stays as it is, whatever its upstream would do: it does not pull upstream again.
\<close>

theorem limit_count_min:
  fixes n :: "'w::len word"
  assumes "yields nxt s xs s'"
  shows "(\<exists>(k :: 'w word) self'.
            count (limiting_next nxt) (limit s n) = Some (k, self')
            \<and> unat k = min (unat n) (length xs))
         \<and> (max_count self \<le> consumed self \<longrightarrow>
              limiting_next up (((\<lambda>st. snd (limiting_next up st)) ^^ j) self) = (None, self))"
  using limit_count [OF assms, of n] limiting_next_stays [of self up j] by blast

theorem limit_count_min_witness:
  "yields (basic_next iterator_next)
     (BasicStream (IteratorStreamable (cbegin [5, 3, 8, 1 :: int]) (cend [5, 3, 8, 1])))
     [5, 3, 8, 1]
     (BasicStream (IteratorStreamable (cend [5, 3, 8, 1]) (cend [5, 3, 8, 1])))
   \<and> (\<exists>(k :: 64 word) self'.
         count (limiting_next (basic_next iterator_next))
           (limit (BasicStream (IteratorStreamable (cbegin [5, 3, 8, 1 :: int]) (cend [5, 3, 8, 1]))) (2 :: 64 word))
           = Some (k, self')
         \<and> unat k = 2)
   \<and> max_count \<lparr>upstream = BasicStream (IteratorStreamable (Const_Iterator [5, 3, 8, 1 :: int] 2) (cend [5, 3, 8, 1])),
                  max_count = 2 :: 64 word, consumed = 2\<rparr>
       \<le> consumed \<lparr>upstream = BasicStream (IteratorStreamable (Const_Iterator [5, 3, 8, 1 :: int] 2) (cend [5, 3, 8, 1])),
                  max_count = 2 :: 64 word, consumed = 2\<rparr>
   \<and> limiting_next (basic_next iterator_next)
         (((\<lambda>st. snd (limiting_next (basic_next iterator_next) st)) ^^ 3)
            \<lparr>upstream = BasicStream (IteratorStreamable (Const_Iterator [5, 3, 8, 1 :: int] 2) (cend [5, 3, 8, 1])),
              max_count = 2 :: 64 word, consumed = 2\<rparr>)
       = (None, \<lparr>upstream = BasicStream (IteratorStreamable (Const_Iterator [5, 3, 8, 1 :: int] 2) (cend [5, 3, 8, 1])),
                  max_count = 2 :: 64 word, consumed = 2\<rparr>)"
proof -
  have y: "yields (basic_next iterator_next)
     (BasicStream (IteratorStreamable (cbegin [5, 3, 8, 1 :: int]) (cend [5, 3, 8, 1])))
     [5, 3, 8, 1]
     (BasicStream (IteratorStreamable (cend [5, 3, 8, 1]) (cend [5, 3, 8, 1])))"
    by (simp add: iterator_next_def IteratorStreamable_def cbegin_def cend_def)
  note t = limit_count_min [OF y, of "2 :: 64 word"
      "\<lparr>upstream = BasicStream (IteratorStreamable (Const_Iterator [5, 3, 8, 1 :: int] 2) (cend [5, 3, 8, 1])),
        max_count = 2 :: 64 word, consumed = 2\<rparr>" "basic_next iterator_next" 3]
  have m: "min (unat (2 :: 64 word)) (length [5, 3, 8, 1 :: int]) = 2" by simp
  note c = t [THEN conjunct1, unfolded m]
  from t have r: "limiting_next (basic_next iterator_next)
         (((\<lambda>st. snd (limiting_next (basic_next iterator_next) st)) ^^ 3)
            \<lparr>upstream = BasicStream (IteratorStreamable (Const_Iterator [5, 3, 8, 1 :: int] 2) (cend [5, 3, 8, 1])),
              max_count = 2 :: 64 word, consumed = 2\<rparr>)
       = (None, \<lparr>upstream = BasicStream (IteratorStreamable (Const_Iterator [5, 3, 8, 1 :: int] 2) (cend [5, 3, 8, 1])),
                  max_count = 2 :: 64 word, consumed = 2\<rparr>)"
    by simp
  from y c r show ?thesis by (intro conjI) simp_all
qed

text \<open>
  Claim C6. For every container, building a stream from it with \<^verbatim>\<open>make_stream\<close> and
  collecting into a target container that \<^verbatim>\<open>collect\<close> accepts gives the elements of
  the original container in their original order.
\<close>

theorem make_stream_collect_round_trip:
  assumes "default_constructible C" and "has_add_assign C \<or> has_push_back C"
  shows "\<exists>stream final.
           make_stream container = Inr stream
           \<and> collect C (basic_next iterator_next) stream = Inr (Some (container, final))"
proof -
  have "make_stream container = Inr (BasicStream (IteratorStreamable (cbegin container) (cend container)))"
    by (simp add: make_stream_def returned_as_def IteratorStreamable_def cbegin_def cend_def)
  with collect_yields [OF forward_stream_yields assms, of container] show ?thesis by blast
qed

theorem make_stream_collect_round_trip_witness:
  "default_constructible \<lparr>default_constructible = True, has_add_assign = False, has_push_back = True\<rparr>
   \<and> (has_add_assign \<lparr>default_constructible = True, has_add_assign = False, has_push_back = True\<rparr>
      \<or> has_push_back \<lparr>default_constructible = True, has_add_assign = False, has_push_back = True\<rparr>)
   \<and> (\<exists>stream final.
         make_stream [5, 3, 8, 1 :: int] = Inr stream
         \<and> collect \<lparr>default_constructible = True, has_add_assign = False, has_push_back = True\<rparr>
             (basic_next iterator_next) stream = Inr (Some ([5, 3, 8, 1], final)))"
  using make_stream_collect_round_trip
    [of "\<lparr>default_constructible = True, has_add_assign = False, has_push_back = True\<rparr>"
        "[5, 3, 8, 1 :: int]"]
  by simp

text \<open>
  Claim C7, as amended. \<^verbatim>\<open>reduce\<close>, \<^verbatim>\<open>sum\<close>, \<^verbatim>\<open>min\<close>, \<^verbatim>\<open>count\<close> and
  \<^verbatim>\<open>collect\<close>, and \<^verbatim>\<open>max\<close> over an element type that provides both \<^verbatim>\<open>operator<\<close>
  and \<^verbatim>\<open>operator>\<close>, pull the chain until it reports empty: over a stage that yields
  \<open>xs\<close>, the answers they pull are the elements of \<open>xs\<close> in order, each once, and then
  the empty answer, and they leave the stage where that answer left it. \<^verbatim>\<open>find_first\<close>
  makes one pull and returns its answer: the first element, or empty when the chain is
  exhausted at once. (\<^verbatim>\<open>sum\<close> is taken on a type with \<^verbatim>\<open>+\<close> and \<^verbatim>\<open>min\<close> on a type
  with \<^verbatim>\<open><\<close> or \<^verbatim>\<open>>\<close>, as their \<^verbatim>\<open>static_assert\<close>s ask; what \<^verbatim>\<open>max\<close> does over
  a type with one of the two operators is the matter of claim C2 and is left out.)
\<close>

theorem terminals_pull_until_empty:
  assumes "yields nxt s xs s'"
  shows "(\<exists>r. reduce f (logged nxt) (s, []) = Some (r, (s', map Some xs @ [None])))
    \<and> (has_add T \<longrightarrow>
         (\<exists>r. sum_stream T (logged nxt) (s, []) = Inr (Some (r, (s', map Some xs @ [None])))))
    \<and> (has_lth T \<or> has_gth T \<longrightarrow>
         (\<exists>r. min_stream T (logged nxt) (s, []) = Inr (Some (r, (s', map Some xs @ [None])))))
    \<and> (has_lth T \<and> has_gth T \<longrightarrow>
         (\<exists>r. max_stream T (logged nxt) (s, []) = Inr (Some (r, (s', map Some xs @ [None])))))
    \<and> count (logged nxt) (s, []) = Some (of_nat (length xs) :: 'w::len word, (s', map Some xs @ [None]))
    \<and> (default_constructible C \<and> (has_add_assign C \<or> has_push_back C) \<longrightarrow>
         collect C (logged nxt) (s, []) = Inr (Some (xs, (s', map Some xs @ [None]))))
    \<and> (\<exists>s1. find_first (logged nxt) (s, []) =
           (case xs of [] \<Rightarrow> None | x # rest \<Rightarrow> Some x,
            (s1, [case xs of [] \<Rightarrow> None | x # rest \<Rightarrow> Some x])))"
proof -
  from logged_yields [OF assms, of "[]"]
  have y: "yields (logged nxt) (s, []) xs (s', map Some xs @ [None])" by simp
  have "\<exists>r. reduce f (logged nxt) (s, []) = Some (r, (s', map Some xs @ [None]))"
    using reduce_yields [OF y, of f] by blast
  moreover have "has_add T \<longrightarrow>
         (\<exists>r. sum_stream T (logged nxt) (s, []) = Inr (Some (r, (s', map Some xs @ [None]))))"
    using sum_stream_yields [OF y, of T] by blast
  moreover have "has_lth T \<or> has_gth T \<longrightarrow>
         (\<exists>r. min_stream T (logged nxt) (s, []) = Inr (Some (r, (s', map Some xs @ [None]))))"
    using min_stream_yields [OF y, of T] by blast
  moreover have "has_lth T \<and> has_gth T \<longrightarrow>
         (\<exists>r. max_stream T (logged nxt) (s, []) = Inr (Some (r, (s', map Some xs @ [None]))))"
    using max_stream_yields [OF y, of T] by blast
  moreover have "count (logged nxt) (s, []) =
      Some (of_nat (length xs) :: 'w word, (s', map Some xs @ [None]))"
    by (rule count_yields [OF y])
  moreover have "default_constructible C \<and> (has_add_assign C \<or> has_push_back C) \<longrightarrow>
         collect C (logged nxt) (s, []) = Inr (Some (xs, (s', map Some xs @ [None])))"
    using collect_yields [OF y, of C] by blast
  moreover have "\<exists>s1. find_first (logged nxt) (s, []) =
           (case xs of [] \<Rightarrow> None | x # rest \<Rightarrow> Some x,
            (s1, [case xs of [] \<Rightarrow> None | x # rest \<Rightarrow> Some x]))"
    using yields_pull [OF assms] by (auto simp: find_first_def logged_def)
  ultimately show ?thesis by (intro conjI)
qed

text \<open>
  Claim C7 as stated counts \<^verbatim>\<open>first\<close> among the operations that pull until the chain
  reports empty. Over \<open>[1, 2]\<close> \<^verbatim>\<open>find_first\<close> pulls one answer, \<open>Some 1\<close>, and not
  the three answers \<open>Some 1\<close>, \<open>Some 2\<close>, \<open>None\<close>; the next pull of the stage still
  gives \<open>Some 2\<close>.
\<close>

theorem find_first_pulls_once:
  "find_first (logged (basic_next iterator_next))
     (BasicStream (IteratorStreamable (cbegin [1, 2 :: int]) (cend [1, 2])), [])
   = (Some 1, (BasicStream (IteratorStreamable (Const_Iterator [1, 2] 1) (cend [1, 2])), [Some 1]))
   \<and> \<not> (\<exists>s'. snd (find_first (logged (basic_next iterator_next))
                 (BasicStream (IteratorStreamable (cbegin [1, 2 :: int]) (cend [1, 2])), []))
             = (s', map Some [1, 2] @ [None]))
   \<and> basic_next iterator_next
        (BasicStream (IteratorStreamable (Const_Iterator [1, 2 :: int] 1) (cend [1, 2])))
      = (Some 2, BasicStream (IteratorStreamable (cend [1, 2]) (cend [1, 2])))"
  by (simp add: find_first_def logged_def iterator_next_def IteratorStreamable_def cbegin_def cend_def)

theorem terminals_pull_until_empty_witness:
  "yields (basic_next iterator_next)
     (BasicStream (IteratorStreamable (cbegin [5, 3, 8, 1 :: int]) (cend [5, 3, 8, 1])))
     [5, 3, 8, 1]
     (BasicStream (IteratorStreamable (cend [5, 3, 8, 1]) (cend [5, 3, 8, 1])))
   \<and> has_add int_type \<and> (has_lth int_type \<or> has_gth int_type) \<and> (has_lth int_type \<and> has_gth int_type)
   \<and> (default_constructible vector_type \<and> (has_add_assign vector_type \<or> has_push_back vector_type))
   \<and> (\<exists>r. reduce (\<lambda>a b. a - b) (logged (basic_next iterator_next))
           (BasicStream (IteratorStreamable (cbegin [5, 3, 8, 1 :: int]) (cend [5, 3, 8, 1])), [])
         = Some (r, (BasicStream (IteratorStreamable (cend [5, 3, 8, 1]) (cend [5, 3, 8, 1])),
                     [Some 5, Some 3, Some 8, Some 1, None])))
   \<and> (\<exists>r. sum_stream int_type (logged (basic_next iterator_next))
           (BasicStream (IteratorStreamable (cbegin [5, 3, 8, 1 :: int]) (cend [5, 3, 8, 1])), [])
         = Inr (Some (r, (BasicStream (IteratorStreamable (cend [5, 3, 8, 1]) (cend [5, 3, 8, 1])),
                     [Some 5, Some 3, Some 8, Some 1, None]))))
   \<and> (\<exists>r. min_stream int_type (logged (basic_next iterator_next))
           (BasicStream (IteratorStreamable (cbegin [5, 3, 8, 1 :: int]) (cend [5, 3, 8, 1])), [])
         = Inr (Some (r, (BasicStream (IteratorStreamable (cend [5, 3, 8, 1]) (cend [5, 3, 8, 1])),
                     [Some 5, Some 3, Some 8, Some 1, None]))))
   \<and> (\<exists>r. max_stream int_type (logged (basic_next iterator_next))
           (BasicStream (IteratorStreamable (cbegin [5, 3, 8, 1 :: int]) (cend [5, 3, 8, 1])), [])
         = Inr (Some (r, (BasicStream (IteratorStreamable (cend [5, 3, 8, 1]) (cend [5, 3, 8, 1])),
                     [Some 5, Some 3, Some 8, Some 1, None]))))
   \<and> count (logged (basic_next iterator_next))
           (BasicStream (IteratorStreamable (cbegin [5, 3, 8, 1 :: int]) (cend [5, 3, 8, 1])), [])
         = Some (4 :: 64 word, (BasicStream (IteratorStreamable (cend [5, 3, 8, 1]) (cend [5, 3, 8, 1])),
                     [Some 5, Some 3, Some 8, Some 1, None]))
   \<and> collect vector_type (logged (basic_next iterator_next))
           (BasicStream (IteratorStreamable (cbegin [5, 3, 8, 1 :: int]) (cend [5, 3, 8, 1])), [])
         = Inr (Some ([5, 3, 8, 1], (BasicStream (IteratorStreamable (cend [5, 3, 8, 1]) (cend [5, 3, 8, 1])),
                     [Some 5, Some 3, Some 8, Some 1, None])))
   \<and> (\<exists>s1. find_first (logged (basic_next iterator_next))
           (BasicStream (IteratorStreamable (cbegin [5, 3, 8, 1 :: int]) (cend [5, 3, 8, 1])), [])
         = (Some 5, (s1, [Some 5])))"
proof -
  have y: "yields (basic_next iterator_next)
     (BasicStream (IteratorStreamable (cbegin [5, 3, 8, 1 :: int]) (cend [5, 3, 8, 1])))
     [5, 3, 8, 1]
     (BasicStream (IteratorStreamable (cend [5, 3, 8, 1]) (cend [5, 3, 8, 1])))"
    by (simp add: iterator_next_def IteratorStreamable_def cbegin_def cend_def)
  have t: "has_add int_type" "has_lth int_type" "has_gth int_type"
    by (simp_all add: int_type_def has_add_def has_lth_def has_gth_def)
  have v: "default_constructible vector_type" "has_push_back vector_type"
    by (simp_all add: vector_type_def)
  have m: "map Some [5, 3, 8, 1 :: int] @ [None] = [Some 5, Some 3, Some 8, Some 1, None]"
    and l: "(of_nat (length [5, 3, 8, 1 :: int]) :: 64 word) = 4"
    and h: "(case [5, 3, 8, 1 :: int] of [] \<Rightarrow> None | x # rest \<Rightarrow> Some x) = Some 5"
    by simp_all
  note a = terminals_pull_until_empty [OF y, of "\<lambda>a b. a - b" int_type vector_type,
      where 'w = 64, unfolded m l h]
  from a y t v show ?thesis by blast
qed

text \<open>
  Claim C8. For every empty pipeline \<^verbatim>\<open>sum\<close>, \<^verbatim>\<open>min\<close> and \<^verbatim>\<open>max\<close> each return
  empty, and for every pipeline of one element each returns that element. The code does
  otherwise for \<^verbatim>\<open>max\<close> over an element type that provides \<^verbatim>\<open>operator<\<close> alone, which
  the \<^verbatim>\<open>static_assert\<close> of line 136 admits: \<^verbatim>\<open>max\<close> is rejected, as in claim C2, over
  the empty pipeline and over the pipeline of the one element \<open>(7, ''only'')\<close>, on which
  \<^verbatim>\<open>min\<close> returns that element. Where the operation is instantiated the claim holds
  (lemma \<open>empty_and_single_where_instantiated\<close>).
\<close>

theorem max_lth_only_empty_and_single_is_rejected:
  "max_stream key_lth_only (basic_next iterator_next)
     (BasicStream (IteratorStreamable (cbegin []) (cend [])))
   = Inl No_Match_For_Operator_Gth
   \<and> max_stream key_lth_only (basic_next iterator_next)
     (BasicStream (IteratorStreamable (cbegin [(7, ''only'')]) (cend [(7, ''only'')])))
   = Inl No_Match_For_Operator_Gth
   \<and> min_stream key_lth_only (basic_next iterator_next)
     (BasicStream (IteratorStreamable (cbegin [(7, ''only'')]) (cend [(7, ''only'')])))
   = Inr (Some (Some (7, ''only''),
        BasicStream (IteratorStreamable (cend [(7, ''only'')]) (cend [(7, ''only'')]))))"
proof -
  have r: "max_replace key_lth_only = Inl No_Match_For_Operator_Gth"
    by (simp add: max_replace_def key_lth_only_def has_lth_def has_gth_def)
  have "min_replace key_lth_only = Inr (\<lambda>v result. fst v < fst result)"
    by (simp add: min_replace_def key_lth_only_def has_lth_def has_gth_def)
  with extremum_yields [OF forward_stream_yields, of "\<lambda>v result. fst v < fst result"
      "[(7 :: nat, ''only'')]"]
  have "min_stream key_lth_only (basic_next iterator_next)
     (BasicStream (IteratorStreamable (cbegin [(7, ''only'')]) (cend [(7, ''only'')])))
   = Inr (Some (Some (7, ''only''),
        BasicStream (IteratorStreamable (cend [(7, ''only'')]) (cend [(7, ''only'')]))))"
    by (simp add: min_stream_def)
  with r show ?thesis by (simp add: max_stream_def)
qed

text \<open>
  Claim C9. \<^verbatim>\<open>make_reverse_stream\<close> builds, for every container with \<^verbatim>\<open>crbegin\<close> and
  \<^verbatim>\<open>crend\<close>, a well-formed pipeline that yields the elements in reverse order. The
  code does otherwise: the stage it returns is over reverse cursors and the return type
  it declares (line 211) is the one of \<^verbatim>\<open>make_stream\<close>, over forward cursors, so the
  function is rejected when instantiated. The stage of the \<^verbatim>\<open>return\<close> statement does
  yield the elements in reverse order (lemma \<open>reverse_stream_yields\<close>).
\<close>

theorem make_reverse_stream_is_rejected:
  "make_reverse_stream [1, 2, 3 :: int] = Inl No_Viable_Conversion"
  by (simp add: make_reverse_stream_def returned_as_def IteratorStreamable_def crbegin_def crend_def)

text \<open>
  Claim C10. For every non-empty pipeline over an element type that provides
  \<^verbatim>\<open>operator<\<close>, \<^verbatim>\<open>min\<close> and \<^verbatim>\<open>max\<close> return, among equal minimal (maximal)
  elements, the first in pull order. The code does otherwise for \<^verbatim>\<open>max\<close> over a type
  that provides \<^verbatim>\<open>operator<\<close> alone: it is rejected, as in claim C2, so that over two
  elements with equal keys \<^verbatim>\<open>min\<close> returns the first and \<^verbatim>\<open>max\<close> returns nothing.
  \<^verbatim>\<open>min\<close> does return the first minimal element (lemma
  \<open>min_with_lth_returns_first_minimal\<close>), and so does \<^verbatim>\<open>max\<close> the first maximal one
  when the type provides \<^verbatim>\<open>operator>\<close> as well (lemma
  \<open>max_with_both_returns_first_maximal\<close>).
\<close>

theorem max_lth_only_tie_is_rejected:
  "min_stream key_lth_only (basic_next iterator_next)
     (BasicStream (IteratorStreamable (cbegin [(2, ''first''), (2, ''second'')])
                                      (cend [(2, ''first''), (2, ''second'')])))
   = Inr (Some (Some (2, ''first''),
        BasicStream (IteratorStreamable (cend [(2, ''first''), (2, ''second'')])
                                        (cend [(2, ''first''), (2, ''second'')]))))
   \<and> max_stream key_lth_only (basic_next iterator_next)
     (BasicStream (IteratorStreamable (cbegin [(2, ''first''), (2, ''second'')])
                                      (cend [(2, ''first''), (2, ''second'')])))
   = Inl No_Match_For_Operator_Gth"
proof -
  have "min_replace key_lth_only = Inr (\<lambda>v result. fst v < fst result)"
    by (simp add: min_replace_def key_lth_only_def has_lth_def has_gth_def)
  with extremum_yields [OF forward_stream_yields, of "\<lambda>v result. fst v < fst result"
      "[(2 :: nat, ''first''), (2, ''second'')]"]
  have "min_stream key_lth_only (basic_next iterator_next)
     (BasicStream (IteratorStreamable (cbegin [(2, ''first''), (2, ''second'')])
                                      (cend [(2, ''first''), (2, ''second'')])))
   = Inr (Some (Some (2, ''first''),
        BasicStream (IteratorStreamable (cend [(2, ''first''), (2, ''second'')])
                                        (cend [(2, ''first''), (2, ''second'')]))))"
    by (simp add: min_stream_def keep_or_replace_def)
  moreover have "max_stream key_lth_only (basic_next iterator_next)
     (BasicStream (IteratorStreamable (cbegin [(2, ''first''), (2, ''second'')])
                                      (cend [(2, ''first''), (2, ''second'')])))
   = Inl No_Match_For_Operator_Gth"
    by (simp add: max_stream_def max_replace_def key_lth_only_def has_lth_def has_gth_def)
  ultimately show ?thesis by (rule conjI)
qed

end
